theory Spec2Isabelle
  imports Main
begin

section \<open>Parameter identifiers (UniversalSpeech/__init__.py, lines 11-27)\<close>

text \<open>
  The module binds twenty-two names to \<^verbatim>\<open>range(0,22)\<close> by tuple unpacking, in the
  order in which they are written, and then eight further constants.  Python integers
  are unbounded, so identifiers are values of type \<^typ>\<open>int\<close>.
\<close>

definition plain_identifiers :: "string list" where
  "plain_identifiers =
     [''VOLUME'', ''VOLUME_MAX'', ''VOLUME_MIN'', ''VOLUME_SUPPORTED'',
      ''RATE'', ''RATE_MAX'', ''RATE_MIN'', ''RATE_SUPPORTED'',
      ''PITCH'', ''PITCH_MAX'', ''PITCH_MIN'', ''PITCH_SUPPORTED'',
      ''INFLEXION'', ''INFLEXION_MAX'', ''INFLEXION_MIN'', ''INFLEXION_SUPPORTED'',
      ''PAUSED'', ''PAUSE_SUPPORTED'',
      ''BUSY'', ''BUSY_SUPPORTED'',
      ''WAIT'', ''WAIT_SUPPORTED'']"

definition range_0_22 :: "int list" where
  "range_0_22 = [0..21]"

text \<open>The binding made by the unpacking assignment: the k-th name gets the k-th number.\<close>

definition plain_binding :: "(string \<times> int) list" where
  "plain_binding = zip plain_identifiers range_0_22"

definition VOLUME :: int where "VOLUME = 0"
definition VOLUME_MAX :: int where "VOLUME_MAX = 1"
definition VOLUME_MIN :: int where "VOLUME_MIN = 2"
definition VOLUME_SUPPORTED :: int where "VOLUME_SUPPORTED = 3"
definition RATE :: int where "RATE = 4"
definition RATE_MAX :: int where "RATE_MAX = 5"
definition RATE_MIN :: int where "RATE_MIN = 6"
definition RATE_SUPPORTED :: int where "RATE_SUPPORTED = 7"
definition PITCH :: int where "PITCH = 8"
definition PITCH_MAX :: int where "PITCH_MAX = 9"
definition PITCH_MIN :: int where "PITCH_MIN = 10"
definition PITCH_SUPPORTED :: int where "PITCH_SUPPORTED = 11"
definition INFLEXION :: int where "INFLEXION = 12"
definition INFLEXION_MAX :: int where "INFLEXION_MAX = 13"
definition INFLEXION_MIN :: int where "INFLEXION_MIN = 14"
definition INFLEXION_SUPPORTED :: int where "INFLEXION_SUPPORTED = 15"
definition PAUSED :: int where "PAUSED = 16"
definition PAUSE_SUPPORTED :: int where "PAUSE_SUPPORTED = 17"
definition BUSY :: int where "BUSY = 18"
definition BUSY_SUPPORTED :: int where "BUSY_SUPPORTED = 19"
definition WAIT :: int where "WAIT = 20"
definition WAIT_SUPPORTED :: int where "WAIT_SUPPORTED = 21"

definition ENABLE_NATIVE_SPEECH :: int where "ENABLE_NATIVE_SPEECH = 0xFFFF"
definition VOICE :: int where "VOICE = 0x10000"
definition LANGUAGE :: int where "LANGUAGE = 0x20000"
definition SUBENGINE :: int where "SUBENGINE = 0x30000"
definition ENGINE :: int where "ENGINE = 0x40000"
definition ENGINE_AVAILABLE :: int where "ENGINE_AVAILABLE = 0x50000"
definition AUTO_ENGINE :: int where "AUTO_ENGINE = 0xFFFE"
definition USER_PARAM :: int where "USER_PARAM = 0x1000000"

text \<open>The plain attribute identifiers, as the values bound to the twenty-two names.\<close>

definition plain_attributes :: "int list" where
  "plain_attributes =
     [VOLUME, VOLUME_MAX, VOLUME_MIN, VOLUME_SUPPORTED,
      RATE, RATE_MAX, RATE_MIN, RATE_SUPPORTED,
      PITCH, PITCH_MAX, PITCH_MIN, PITCH_SUPPORTED,
      INFLEXION, INFLEXION_MAX, INFLEXION_MIN, INFLEXION_SUPPORTED,
      PAUSED, PAUSE_SUPPORTED,
      BUSY, BUSY_SUPPORTED,
      WAIT, WAIT_SUPPORTED]"

text \<open>
  The selector bases: the constants to which an offset is added to select a voice, a
  language, a subengine, an engine or the availability of an engine.
\<close>

definition selector_bases :: "int list" where
  "selector_bases = [VOICE, LANGUAGE, SUBENGINE, ENGINE, ENGINE_AVAILABLE]"

section \<open>The native library and the calls made on it\<close>

text \<open>
  The facade holds a \<^verbatim>\<open>ctypes.CDLL\<close> handle and forwards every method to one exported
  function of it.  The library is closed source: it is a parameter of the model, a
  record of seven functions over a state \<^typ>\<open>'s\<close> of its own.  Each function takes
  the native state and returns what the C function returns together with the native
  state after the call.  A Python \<^verbatim>\<open>bool\<close> is passed where the facade passes one, an
  \<^verbatim>\<open>int\<close> where it passes one.  \<^verbatim>\<open>speechGetString\<close> has result type
  \<^verbatim>\<open>c_wchar_p\<close>: a null pointer comes back as \<^verbatim>\<open>None\<close>, anything else as a string.
\<close>

datatype pyval = PyInt int | PyBool bool

record 's uspeech =
  speechSay :: "string \<Rightarrow> bool \<Rightarrow> 's \<Rightarrow> int \<times> 's"
  speechSayA :: "string \<Rightarrow> bool \<Rightarrow> 's \<Rightarrow> int \<times> 's"
  brailleDisplay :: "string \<Rightarrow> 's \<Rightarrow> int \<times> 's"
  speechStop :: "'s \<Rightarrow> int \<times> 's"
  speechGetValue :: "int \<Rightarrow> 's \<Rightarrow> int \<times> 's"
  speechSetValue :: "int \<Rightarrow> pyval \<Rightarrow> 's \<Rightarrow> int \<times> 's"
  speechGetString :: "int \<Rightarrow> 's \<Rightarrow> string option \<times> 's"

text \<open>
  The world a facade method runs in: the native state, and the log of the native calls
  made so far, oldest first.  The log is what the claims about call order observe.
\<close>

datatype native_call =
    SpeechSay string bool
  | SpeechSayA string bool
  | BrailleDisplay string
  | SpeechStop
  | SpeechGetValue int
  | SpeechSetValue int pyval
  | SpeechGetString int

record 's world =
  calls :: "native_call list"
  native :: "'s"

definition invoke :: "native_call \<Rightarrow> ('s \<Rightarrow> 'r \<times> 's) \<Rightarrow> 's world \<Rightarrow> 'r \<times> 's world" where
  "invoke c f w =
     (case f (native w) of
        (r, s') \<Rightarrow> (r, \<lparr>calls = calls w @ [c], native = s'\<rparr>))"

type_synonym path = "string list"

datatype error =
    DLLFileNotFoundError string
  | UnsupportedError string
  | AttributeError string
  | FileNotFoundError path

section \<open>The facade (class UniversalSpeech)\<close>

definition say :: "'s uspeech \<Rightarrow> string \<Rightarrow> bool \<Rightarrow> 's world \<Rightarrow> int \<times> 's world" where
  "say lib msg interrupt w = invoke (SpeechSay msg interrupt) (speechSay lib msg interrupt) w"

definition say_a :: "'s uspeech \<Rightarrow> string \<Rightarrow> bool \<Rightarrow> 's world \<Rightarrow> int \<times> 's world" where
  "say_a lib msg interrupt w =
     invoke (SpeechSayA msg interrupt) (speechSayA lib msg interrupt) w"

definition braille :: "'s uspeech \<Rightarrow> string \<Rightarrow> 's world \<Rightarrow> int \<times> 's world" where
  "braille lib msg w = invoke (BrailleDisplay msg) (brailleDisplay lib msg) w"

definition stop :: "'s uspeech \<Rightarrow> 's world \<Rightarrow> int \<times> 's world" where
  "stop lib w = invoke SpeechStop (speechStop lib) w"

definition get_value :: "'s uspeech \<Rightarrow> int \<Rightarrow> 's world \<Rightarrow> int \<times> 's world" where
  "get_value lib what w = invoke (SpeechGetValue what) (speechGetValue lib what) w"

definition set_value :: "'s uspeech \<Rightarrow> int \<Rightarrow> pyval \<Rightarrow> 's world \<Rightarrow> int \<times> 's world" where
  "set_value lib what v w = invoke (SpeechSetValue what v) (speechSetValue lib what v) w"

definition get_string :: "'s uspeech \<Rightarrow> int \<Rightarrow> 's world \<Rightarrow> string option \<times> 's world" where
  "get_string lib what w = invoke (SpeechGetString what) (speechGetString lib what) w"


text \<open>
  Attribute lookup on the instance.  The class body defines three methods that are
  called with a message alone: \<^verbatim>\<open>say\<close> and \<^verbatim>\<open>say_a\<close> (whose second parameter
  defaults to \<^verbatim>\<open>True\<close>) and \<^verbatim>\<open>braille\<close>.  A name that the lookup does not find
  raises \<^verbatim>\<open>AttributeError\<close> at the attribute access, before any argument is passed.
\<close>

definition message_methods ::
  "'s uspeech \<Rightarrow> (string \<times> (string \<Rightarrow> 's world \<Rightarrow> int \<times> 's world)) list" where
  "message_methods lib =
     [(''say'', \<lambda>msg. say lib msg True),
      (''say_a'', \<lambda>msg. say_a lib msg True),
      (''braille'', \<lambda>msg. braille lib msg)]"

text \<open>\<^verbatim>\<open>speech_a\<close> is written with \<^verbatim>\<open>self.sayA(msg)\<close>, then \<^verbatim>\<open>self.braille(msg)\<close>.\<close>

definition speech_a :: "'s uspeech \<Rightarrow> string \<Rightarrow> 's world \<Rightarrow> (error + unit) \<times> 's world" where
  "speech_a lib msg w =
     (case map_of (message_methods lib) ''sayA'' of
        None \<Rightarrow> (Inl (AttributeError ''sayA''), w)
      | Some sayA \<Rightarrow>
          (case sayA msg w of
             (_, w1) \<Rightarrow> (case braille lib msg w1 of (_, w2) \<Rightarrow> (Inr (), w2))))"

definition enable_native_speech :: "'s uspeech \<Rightarrow> bool \<Rightarrow> 's world \<Rightarrow> unit \<times> 's world" where
  "enable_native_speech lib enabled w =
     (case set_value lib ENABLE_NATIVE_SPEECH (PyBool enabled) w of (_, w1) \<Rightarrow> ((), w1))"

definition engine_used :: "'s uspeech \<Rightarrow> 's world \<Rightarrow> string option \<times> 's world" where
  "engine_used lib w =
     (case get_value lib ENGINE w of
        (engine_id, w1) \<Rightarrow> get_string lib (ENGINE + engine_id) w1)"

text \<open>
  An entry of the list \<^verbatim>\<open>get_engines\<close> builds: the dictionary with the keys
  \<^verbatim>\<open>"name"\<close>, \<^verbatim>\<open>"available"\<close> and \<^verbatim>\<open>"Id"\<close>.
\<close>

record engine =
  name :: string
  available :: bool
  Id' :: int

text \<open>
  The \<^verbatim>\<open>while True\<close> loop of \<^verbatim>\<open>get_engines\<close>, with the list built so far and the
  counter \<^verbatim>\<open>i\<close>.  \<^verbatim>\<open>not name\<close> holds of \<^verbatim>\<open>None\<close> and of the empty string.  Nothing
  bounds the loop: where it runs forever the value is \<^term>\<open>None\<close>.
\<close>

partial_function (option) get_engines_loop ::
  "'s uspeech \<Rightarrow> engine list \<Rightarrow> int \<Rightarrow> 's world \<Rightarrow> (engine list \<times> 's world) option" where
  "get_engines_loop lib engines i w =
     (case get_string lib (ENGINE + i) w of
        (nm, w1) \<Rightarrow>
          (case nm of
             None \<Rightarrow> Some (engines, w1)
           | Some n \<Rightarrow>
               if n = [] then Some (engines, w1)
               else
                 (case get_value lib (ENGINE_AVAILABLE + i) w1 of
                    (v, w2) \<Rightarrow>
                      get_engines_loop lib
                        (engines @ [\<lparr>name = n, available = (v \<noteq> 0), Id' = i\<rparr>])
                        (i + 1) w2)))"

declare get_engines_loop.simps [code]

definition get_engines :: "'s uspeech \<Rightarrow> 's world \<Rightarrow> (engine list \<times> 's world) option" where
  "get_engines lib w = get_engines_loop lib [] 0 w"









section \<open>The loader (UniversalSpeech/load.py)\<close>











section \<open>Reading the enumeration and the required files off the model\<close>

text \<open>
  The world in which \<^verbatim>\<open>get_engines\<close> asks for the name at offset \<open>k\<close>: the one left
  by the two reads at each earlier offset.  From it, the name and the availability
  value the library returns at offset \<open>k\<close>, and the dictionary built from them.
\<close>

primrec enumeration_world :: "'s uspeech \<Rightarrow> 's world \<Rightarrow> nat \<Rightarrow> 's world" where
  "enumeration_world lib w 0 = w"
| "enumeration_world lib w (Suc k) =
     snd (get_value lib (ENGINE_AVAILABLE + int k)
            (snd (get_string lib (ENGINE + int k) (enumeration_world lib w k))))"

definition name_read :: "'s uspeech \<Rightarrow> 's world \<Rightarrow> nat \<Rightarrow> string option" where
  "name_read lib w k = fst (get_string lib (ENGINE + int k) (enumeration_world lib w k))"

definition available_read :: "'s uspeech \<Rightarrow> 's world \<Rightarrow> nat \<Rightarrow> int" where
  "available_read lib w k =
     fst (get_value lib (ENGINE_AVAILABLE + int k)
            (snd (get_string lib (ENGINE + int k) (enumeration_world lib w k))))"

definition falsy :: "string option \<Rightarrow> bool" where
  "falsy nm = (case nm of None \<Rightarrow> True | Some n \<Rightarrow> n = [])"

definition descriptor :: "'s uspeech \<Rightarrow> 's world \<Rightarrow> nat \<Rightarrow> engine" where
  "descriptor lib w k =
     \<lparr>name = (case name_read lib w k of None \<Rightarrow> [] | Some n \<Rightarrow> n),
      available = (available_read lib w k \<noteq> 0),
      Id' = int k\<rparr>"

text \<open>The world after the read that ends an enumeration of \<open>n\<close> engines.\<close>

definition enumeration_end :: "'s uspeech \<Rightarrow> 's world \<Rightarrow> nat \<Rightarrow> 's world" where
  "enumeration_end lib w n = snd (get_string lib (ENGINE + int n) (enumeration_world lib w n))"

text \<open>The two native calls an enumeration makes at offset \<open>k\<close>.\<close>

definition reads_at :: "nat \<Rightarrow> native_call list" where
  "reads_at k = [SpeechGetString (ENGINE + int k), SpeechGetValue (ENGINE_AVAILABLE + int k)]"

text \<open>The native calls a run has added to the log of the world it started in.\<close>

definition issued :: "'s world \<Rightarrow> 's world \<Rightarrow> native_call list" where
  "issued w w' = drop (length (calls w)) (calls w')"

definition issued_by_get_engines :: "'s uspeech \<Rightarrow> 's world \<Rightarrow> native_call list" where
  "issued_by_get_engines lib w =
     (case get_engines lib w of None \<Rightarrow> [] | Some (engines, w') \<Rightarrow> issued w w')"





section \<open>A table-driven native library\<close>

text \<open>
  A library to run the facade on: its parameters are a list of identifier and value
  pairs, newest first, its strings come from a fixed table, and its speech and braille
  functions return a fixed code.  A \<^verbatim>\<open>bool\<close> reaches C as 0 or 1.
\<close>

fun c_int :: "pyval \<Rightarrow> int" where
  "c_int (PyInt n) = n"
| "c_int (PyBool b) = (if b then 1 else 0)"

definition table_library :: "int \<Rightarrow> (int \<times> string) list \<Rightarrow> ((int \<times> int) list) uspeech" where
  "table_library code strings =
     \<lparr>speechSay = (\<lambda>msg interrupt s. (code, s)),
      speechSayA = (\<lambda>msg interrupt s. (code, s)),
      brailleDisplay = (\<lambda>msg s. (code, s)),
      speechStop = (\<lambda>s. (code, s)),
      speechGetValue = (\<lambda>what s. (case map_of s what of None \<Rightarrow> 0 | Some v \<Rightarrow> v, s)),
      speechSetValue = (\<lambda>what v s. (1, (what, c_int v) # s)),
      speechGetString = (\<lambda>what s. (map_of strings what, s))\<rparr>"

text \<open>Two engines, \<open>A\<close> and \<open>B\<close>, and the empty name after them.\<close>

definition two_engines :: "((int \<times> int) list) uspeech" where
  "two_engines = table_library 1 [(ENGINE, ''A''), (ENGINE + 1, ''B''), (ENGINE + 2, [])]"

definition fresh :: "(int \<times> int) list \<Rightarrow> ((int \<times> int) list) world" where
  "fresh s = \<lparr>calls = [], native = s\<rparr>"




section \<open>The log of native calls\<close>

text \<open>Every forwarding method adds exactly its own call to the end of the log.\<close>

lemma fst_invoke: "fst (invoke c f w) = fst (f (native w))"
  by (simp add: invoke_def split: prod.splits)

lemma calls_invoke: "calls (snd (invoke c f w)) = calls w @ [c]"
  by (simp add: invoke_def split: prod.splits)

lemma native_invoke: "native (snd (invoke c f w)) = snd (f (native w))"
  by (simp add: invoke_def split: prod.splits)

lemma issued_append: "calls w' = calls w @ cs \<Longrightarrow> issued w w' = cs"
  by (simp add: issued_def)

lemma calls_get_value: "calls (snd (get_value lib what w)) = calls w @ [SpeechGetValue what]"
  by (simp add: get_value_def calls_invoke)

lemma calls_set_value: "calls (snd (set_value lib what v w)) = calls w @ [SpeechSetValue what v]"
  by (simp add: set_value_def calls_invoke)

lemma calls_get_string: "calls (snd (get_string lib what w)) = calls w @ [SpeechGetString what]"
  by (simp add: get_string_def calls_invoke)



section \<open>The enumeration loop, run\<close>

text \<open>
  One unfolding of the loop for each of its two exits, and from them the whole run: if
  the names read at the offsets below \<open>n\<close> are non-empty and the one at \<open>n\<close> is not,
  the loop started at offset \<open>k \<le> n\<close> returns after the read at \<open>n\<close>.
\<close>

lemma loop_stop:
  "falsy (fst (get_string lib (ENGINE + i) w)) \<Longrightarrow>
   get_engines_loop lib acc i w = Some (acc, snd (get_string lib (ENGINE + i) w))"
  by (subst get_engines_loop.simps) (auto simp: falsy_def split: prod.splits option.splits)

lemma loop_step:
  "\<not> falsy (fst (get_string lib (ENGINE + i) w)) \<Longrightarrow>
   get_engines_loop lib acc i w =
   get_engines_loop lib
     (acc @ [\<lparr>name = (case fst (get_string lib (ENGINE + i) w) of None \<Rightarrow> [] | Some n \<Rightarrow> n),
              available = (fst (get_value lib (ENGINE_AVAILABLE + i)
                                  (snd (get_string lib (ENGINE + i) w))) \<noteq> 0),
              Id' = i\<rparr>])
     (i + 1)
     (snd (get_value lib (ENGINE_AVAILABLE + i) (snd (get_string lib (ENGINE + i) w))))"
  by (subst get_engines_loop.simps) (auto simp: falsy_def split: prod.splits option.splits)

lemma loop_run:
  assumes stop: "falsy (name_read lib w n)"
    and go: "\<forall>k<n. \<not> falsy (name_read lib w k)"
  shows "k \<le> n \<Longrightarrow>
    get_engines_loop lib acc (int k) (enumeration_world lib w k) =
    Some (acc @ map (descriptor lib w) [k..<n], enumeration_end lib w n)"
proof (induction "n - k" arbitrary: k acc)
  case 0
  then have "k = n" by simp
  with stop show ?case
    by (simp add: loop_stop name_read_def enumeration_end_def)
next
  case (Suc d)
  then have lt: "k < n" and le: "Suc k \<le> n" and d: "d = n - Suc k" by simp_all
  from go lt have "\<not> falsy (fst (get_string lib (ENGINE + int k) (enumeration_world lib w k)))"
    by (simp add: name_read_def)
  then have "get_engines_loop lib acc (int k) (enumeration_world lib w k) =
     get_engines_loop lib (acc @ [descriptor lib w k]) (int (Suc k)) (enumeration_world lib w (Suc k))"
    by (simp add: loop_step descriptor_def name_read_def available_read_def add.commute)
  also have "\<dots> = Some ((acc @ [descriptor lib w k]) @ map (descriptor lib w) [Suc k..<n],
                         enumeration_end lib w n)"
    using Suc.hyps(1) [OF d le] .
  finally show ?case using lt by (simp add: upt_conv_Cons)
qed

lemma calls_enumeration_world:
  "calls (enumeration_world lib w k) = calls w @ concat (map reads_at [0..<k])"
  by (induction k) (simp_all add: calls_get_value calls_get_string reads_at_def)

lemma calls_enumeration_end:
  "calls (enumeration_end lib w n) =
   calls w @ concat (map reads_at [0..<n]) @ [SpeechGetString (ENGINE + int n)]"
  by (simp add: enumeration_end_def calls_get_string calls_enumeration_world)

lemma get_engines_run:
  assumes "falsy (name_read lib w n)" and "\<forall>k<n. \<not> falsy (name_read lib w k)"
  shows "get_engines lib w = Some (map (descriptor lib w) [0..<n], enumeration_end lib w n)"
  using loop_run [OF assms, of 0 "[]"] by (simp add: get_engines_def)

section \<open>The loader finds its files\<close>





section \<open>The four setters\<close>










text \<open>
  The flags as the table-driven library reads them: all 0 in the empty state, all 1 in
  the state \<open>all_supported\<close>.
\<close>

lemma flag_read_table_library:
  "fst (get_value (table_library code strings) what (fresh s)) =
     (case map_of s what of None \<Rightarrow> 0 | Some v \<Rightarrow> v)"
  by (simp add: get_value_def fst_invoke table_library_def fresh_def)




section \<open>The forwarding methods\<close>

text \<open>
  C4.  \<^verbatim>\<open>enable_native_speech(b)\<close> leaves the world that
  \<^verbatim>\<open>set_value(ENABLE_NATIVE_SPEECH, b)\<close> leaves: it makes exactly one native call, the
  write of \<open>b\<close> to the parameter \<open>0xFFFF\<close>.  It returns \<^verbatim>\<open>None\<close>, where
  \<^verbatim>\<open>set_value\<close> returns the code of the native function.
\<close>

theorem enable_native_speech_is_set_value:
  "snd (enable_native_speech lib b w) = snd (set_value lib ENABLE_NATIVE_SPEECH (PyBool b) w)
   \<and> issued w (snd (enable_native_speech lib b w)) = [SpeechSetValue 0xFFFF (PyBool b)]
   \<and> native (snd (enable_native_speech lib b w)) =
       snd (speechSetValue lib 0xFFFF (PyBool b) (native w))"
proof -
  have same: "snd (enable_native_speech lib b w) =
      snd (set_value lib ENABLE_NATIVE_SPEECH (PyBool b) w)"
    by (simp add: enable_native_speech_def split: prod.splits)
  have id: "ENABLE_NATIVE_SPEECH = 0xFFFF"
    by (simp add: ENABLE_NATIVE_SPEECH_def)
  show ?thesis
    unfolding same
    by (simp add: issued_append calls_set_value id [symmetric])
       (simp add: set_value_def native_invoke)
qed

theorem enable_native_speech_is_set_value_witness:
  "issued (fresh []) (snd (enable_native_speech two_engines True (fresh []))) =
     [SpeechSetValue 65535 (PyBool True)]
   \<and> native (snd (enable_native_speech two_engines False (fresh []))) = [(65535, 0)]
   \<and> native (snd (enable_native_speech two_engines True (fresh []))) = [(65535, 1)]"
proof -
  have r: "snd (speechSetValue two_engines 65535 (PyBool b) (native (fresh []))) =
      [(65535, if b then 1 else 0)]" for b
    by (simp add: two_engines_def table_library_def fresh_def)
  from enable_native_speech_is_set_value [of two_engines True "fresh []", THEN conjunct2]
    enable_native_speech_is_set_value [of two_engines False "fresh []", THEN conjunct2]
  show ?thesis by (simp add: r)
qed



text \<open>
  C8.  \<^verbatim>\<open>engine_used\<close> makes two native calls: \<^verbatim>\<open>get_value(ENGINE)\<close>, which gives the
  engine id \<open>e\<close>, and then \<^verbatim>\<open>get_string(ENGINE + e)\<close>, whose result it returns.
\<close>

theorem engine_used_reads_id_then_name:
  "engine_used lib w =
     get_string lib (ENGINE + fst (get_value lib ENGINE w)) (snd (get_value lib ENGINE w))
   \<and> issued w (snd (engine_used lib w)) =
     [SpeechGetValue ENGINE, SpeechGetString (ENGINE + fst (get_value lib ENGINE w))]"
proof -
  have run: "engine_used lib w =
      get_string lib (ENGINE + fst (get_value lib ENGINE w)) (snd (get_value lib ENGINE w))"
    by (simp add: engine_used_def split: prod.splits)
  have "calls (snd (engine_used lib w)) =
      calls w @ [SpeechGetValue ENGINE, SpeechGetString (ENGINE + fst (get_value lib ENGINE w))]"
    unfolding run by (simp add: calls_get_string calls_get_value)
  then have "issued w (snd (engine_used lib w)) =
      [SpeechGetValue ENGINE, SpeechGetString (ENGINE + fst (get_value lib ENGINE w))]"
    by (rule issued_append)
  with run show ?thesis by simp
qed

theorem engine_used_reads_id_then_name_witness:
  "fst (engine_used two_engines (fresh [(ENGINE, 1)])) = Some ''B''
   \<and> issued (fresh [(ENGINE, 1)]) (snd (engine_used two_engines (fresh [(ENGINE, 1)]))) =
       [SpeechGetValue ENGINE, SpeechGetString (ENGINE + 1)]"
proof -
  have e: "fst (get_value two_engines ENGINE (fresh [(ENGINE, 1)])) = 1"
    by (simp add: two_engines_def flag_read_table_library)
  have b: "fst (get_string two_engines (ENGINE + 1) x) = Some ''B''" for x
    by (simp add: get_string_def fst_invoke two_engines_def table_library_def ENGINE_def)
  note run = engine_used_reads_id_then_name [of two_engines "fresh [(ENGINE, 1)]"]
  from run [THEN conjunct1]
  have "fst (engine_used two_engines (fresh [(ENGINE, 1)])) = Some ''B''"
    by (simp add: e b)
  moreover from run [THEN conjunct2]
  have "issued (fresh [(ENGINE, 1)]) (snd (engine_used two_engines (fresh [(ENGINE, 1)]))) =
      [SpeechGetValue ENGINE, SpeechGetString (ENGINE + 1)]"
    by (simp add: e)
  ultimately show ?thesis by simp
qed

text \<open>
  C10.  \<^verbatim>\<open>speech_a(msg)\<close> raises \<^verbatim>\<open>AttributeError\<close>: it looks up \<^verbatim>\<open>sayA\<close>, and the
  class defines \<^verbatim>\<open>say_a\<close> but no \<^verbatim>\<open>sayA\<close>.  It has then made no native call, and its
  \<^verbatim>\<open>braille(msg)\<close> is not reached: the world is the one it started in.
\<close>

theorem speech_a_raises_AttributeError:
  "speech_a lib msg w = (Inl (AttributeError ''sayA''), w)
   \<and> issued w (snd (speech_a lib msg w)) = []
   \<and> map_of (message_methods lib) ''sayA'' = None
   \<and> map_of (message_methods lib) ''say_a'' = Some (\<lambda>m. say_a lib m True)"
  by (simp add: speech_a_def message_methods_def issued_def)

theorem speech_a_raises_AttributeError_witness:
  "speech_a two_engines ''hello'' (fresh []) = (Inl (AttributeError ''sayA''), fresh [])
   \<and> calls (snd (speech_a two_engines ''hello'' (fresh []))) = []"
  using speech_a_raises_AttributeError [of two_engines "''hello''" "fresh []"]
  by (simp add: fresh_def)

section \<open>Enumerating the engines\<close>

lemma first_falsy:
  assumes "\<exists>m. falsy (name_read lib w m)"
  obtains n where "falsy (name_read lib w n)" and "\<forall>k<n. \<not> falsy (name_read lib w k)"
proof -
  let ?n = "LEAST m. falsy (name_read lib w m)"
  from assms have "falsy (name_read lib w ?n)" by (rule LeastI_ex)
  moreover have "\<forall>k<?n. \<not> falsy (name_read lib w k)"
    using not_less_Least by blast
  ultimately show thesis by (rule that)
qed

lemma issued_by_get_engines_run:
  assumes "falsy (name_read lib w n)" and "\<forall>k<n. \<not> falsy (name_read lib w k)"
  shows "issued_by_get_engines lib w =
    concat (map reads_at [0..<n]) @ [SpeechGetString (ENGINE + int n)]"
  by (simp add: issued_by_get_engines_def get_engines_run [OF assms] issued_append
      calls_enumeration_end)

text \<open>The table-driven library answers its reads from its tables, in any world.\<close>

lemma native_enumeration_world_table:
  "native (enumeration_world (table_library code strings) w k) = native w"
  by (induction k)
     (simp_all add: get_value_def get_string_def native_invoke table_library_def)

lemma name_read_table: "name_read (table_library code strings) w k = map_of strings (ENGINE + int k)"
  by (simp add: name_read_def get_string_def fst_invoke table_library_def)

lemma available_read_table:
  "available_read (table_library code strings) w k =
     (case map_of (native w) (ENGINE_AVAILABLE + int k) of None \<Rightarrow> 0 | Some v \<Rightarrow> v)"
proof -
  have "native (snd (get_string (table_library code strings) (ENGINE + int k)
           (enumeration_world (table_library code strings) w k))) = native w"
    by (simp add: get_string_def native_invoke native_enumeration_world_table)
       (simp add: table_library_def)
  then show ?thesis
    by (simp add: available_read_def get_value_def fst_invoke)
       (simp add: table_library_def)
qed

lemma name_read_two_engines:
  "name_read two_engines w 0 = Some ''A''"
  "name_read two_engines w 1 = Some ''B''"
  "name_read two_engines w 2 = Some []"
  by (simp_all add: two_engines_def name_read_table ENGINE_def)

lemma name_read_two_engines_Suc: "name_read two_engines w (Suc 0) = Some ''B''"
  using name_read_two_engines(2) [of w] by simp

text \<open>
  C6.  When the library returns the name \<open>A\<close> at offset 0, \<open>B\<close> at offset 1 and the
  empty string at offset 2, \<^verbatim>\<open>get_engines()\<close> returns two entries, in this order: the
  one with name \<open>A\<close> and id 0, and the one with name \<open>B\<close> and id 1.  The availability
  of each is true exactly when the value read for it at \<^verbatim>\<open>ENGINE_AVAILABLE\<close> plus its
  offset is not 0.
\<close>

theorem get_engines_two_names:
  assumes "name_read lib w 0 = Some ''A''"
    and "name_read lib w 1 = Some ''B''"
    and "name_read lib w 2 = Some []"
  shows "get_engines lib w =
      Some ([\<lparr>name = ''A'', available = (available_read lib w 0 \<noteq> 0), Id' = 0\<rparr>,
             \<lparr>name = ''B'', available = (available_read lib w 1 \<noteq> 0), Id' = 1\<rparr>],
            enumeration_end lib w 2)
    \<and> map_option (map Id' \<circ> fst) (get_engines lib w) = Some [0, 1]"
proof -
  have stop: "falsy (name_read lib w 2)"
    using assms(3) by (simp add: falsy_def)
  have go: "\<forall>k<2. \<not> falsy (name_read lib w k)"
  proof (intro allI impI)
    fix k :: nat
    assume "k < 2"
    then have "k = 0 \<or> k = 1" by arith
    with assms(1,2) show "\<not> falsy (name_read lib w k)"
      by (auto simp: falsy_def)
  qed
  have two: "[0..<2] = [0, Suc 0]"
    by (simp add: numeral_2_eq_2)
  have "get_engines lib w = Some (map (descriptor lib w) [0..<2], enumeration_end lib w 2)"
    using stop go by (rule get_engines_run)
  then have run: "get_engines lib w =
      Some ([\<lparr>name = ''A'', available = (available_read lib w 0 \<noteq> 0), Id' = 0\<rparr>,
             \<lparr>name = ''B'', available = (available_read lib w 1 \<noteq> 0), Id' = 1\<rparr>],
            enumeration_end lib w 2)"
    using assms(1,2) by (simp add: two descriptor_def)
  then show ?thesis by simp
qed

theorem get_engines_two_names_witness:
  "map_option fst (get_engines two_engines (fresh [(ENGINE_AVAILABLE, 1)])) =
     Some [\<lparr>name = ''A'', available = True, Id' = 0\<rparr>,
           \<lparr>name = ''B'', available = False, Id' = 1\<rparr>]
   \<and> map_option (map Id' \<circ> fst) (get_engines two_engines (fresh [(ENGINE_AVAILABLE, 1)])) =
     Some [0, 1]"
proof -
  have a: "available_read two_engines (fresh [(ENGINE_AVAILABLE, 1)]) 0 = 1"
    "available_read two_engines (fresh [(ENGINE_AVAILABLE, 1)]) (Suc 0) = 0"
    by (simp_all add: two_engines_def available_read_table fresh_def)
  from get_engines_two_names [OF name_read_two_engines, of "fresh [(ENGINE_AVAILABLE, 1)]"]
  show ?thesis by (simp add: a)
qed

text \<open>
  C7.  \<^verbatim>\<open>get_engines()\<close> returns whenever some offset yields an empty name (or
  \<^verbatim>\<open>None\<close>).  It then has read the name and the availability at the offsets 0, 1, ...
  below the first such offset \<open>n\<close>, in ascending order, and the name at \<open>n\<close>, and it
  returns the entries for exactly the offsets below \<open>n\<close>, in that order.
\<close>

theorem get_engines_terminates:
  assumes "\<exists>m. falsy (name_read lib w m)"
  shows "\<exists>n. falsy (name_read lib w n)
      \<and> (\<forall>k<n. \<not> falsy (name_read lib w k))
      \<and> get_engines lib w = Some (map (descriptor lib w) [0..<n], enumeration_end lib w n)
      \<and> issued_by_get_engines lib w =
          concat (map reads_at [0..<n]) @ [SpeechGetString (ENGINE + int n)]"
proof -
  from assms obtain n
    where stop: "falsy (name_read lib w n)" and go: "\<forall>k<n. \<not> falsy (name_read lib w k)"
    by (rule first_falsy)
  from stop go have "get_engines lib w =
      Some (map (descriptor lib w) [0..<n], enumeration_end lib w n)"
    by (rule get_engines_run)
  moreover from stop go have "issued_by_get_engines lib w =
      concat (map reads_at [0..<n]) @ [SpeechGetString (ENGINE + int n)]"
    by (rule issued_by_get_engines_run)
  ultimately show ?thesis using stop go by blast
qed

theorem get_engines_terminates_witness:
  "falsy (name_read two_engines (fresh []) 2)
   \<and> map_option fst (get_engines two_engines (fresh [])) =
       Some [\<lparr>name = ''A'', available = False, Id' = 0\<rparr>,
             \<lparr>name = ''B'', available = False, Id' = 1\<rparr>]
   \<and> issued_by_get_engines two_engines (fresh []) =
       [SpeechGetString ENGINE, SpeechGetValue ENGINE_AVAILABLE,
        SpeechGetString (ENGINE + 1), SpeechGetValue (ENGINE_AVAILABLE + 1),
        SpeechGetString (ENGINE + 2)]"
proof -
  have f2: "falsy (name_read two_engines (fresh []) 2)"
    and f1: "\<not> falsy (name_read two_engines (fresh []) 1)"
    and f0: "\<not> falsy (name_read two_engines (fresh []) 0)"
    by (simp_all add: name_read_two_engines name_read_two_engines_Suc falsy_def)
  then have "\<exists>m. falsy (name_read two_engines (fresh []) m)" by blast
  from get_engines_terminates [OF this] obtain n
    where stop: "falsy (name_read two_engines (fresh []) n)"
      and go: "\<forall>k<n. \<not> falsy (name_read two_engines (fresh []) k)"
      and run: "get_engines two_engines (fresh []) =
        Some (map (descriptor two_engines (fresh [])) [0..<n], enumeration_end two_engines (fresh []) n)"
      and log: "issued_by_get_engines two_engines (fresh []) =
        concat (map reads_at [0..<n]) @ [SpeechGetString (ENGINE + int n)]"
    by blast
  from go f2 have "\<not> 2 < n" by blast
  moreover from stop f0 have "n \<noteq> 0" by (rule_tac notI) simp
  moreover from stop f1 have "n \<noteq> 1" by (rule_tac notI) simp
  ultimately have n: "n = 2" by arith
  have two: "[0..<2] = [0, Suc 0]"
    by (simp add: numeral_2_eq_2)
  have a: "available_read two_engines (fresh []) k = 0" for k
    by (simp add: two_engines_def available_read_table fresh_def)
  from run have "map_option fst (get_engines two_engines (fresh [])) =
       Some [\<lparr>name = ''A'', available = False, Id' = 0\<rparr>,
             \<lparr>name = ''B'', available = False, Id' = 1\<rparr>]"
    unfolding n
    by (simp add: two descriptor_def name_read_two_engines name_read_two_engines_Suc a)
  moreover from log have "issued_by_get_engines two_engines (fresh []) =
       [SpeechGetString ENGINE, SpeechGetValue ENGINE_AVAILABLE,
        SpeechGetString (ENGINE + 1), SpeechGetValue (ENGINE_AVAILABLE + 1),
        SpeechGetString (ENGINE + 2)]"
    unfolding n by (simp add: two reads_at_def)
  ultimately show ?thesis using f2 by simp
qed

section \<open>Identifier arithmetic\<close>

text \<open>
  C9, as it is written, has \<^verbatim>\<open>ENGINE + i\<close> address the availability of the i-th engine
  in the \<^verbatim>\<open>get_value\<close> call of the enumeration.  The enumeration of the two engines
  \<open>A\<close> and \<open>B\<close> makes no \<^verbatim>\<open>get_value\<close> call at \<^verbatim>\<open>ENGINE + 0\<close>: the availability of
  engine 0 is read at \<^verbatim>\<open>ENGINE_AVAILABLE + 0\<close>.
\<close>

theorem availability_not_read_at_ENGINE:
  "SpeechGetValue (ENGINE + 0) \<notin> set (issued_by_get_engines two_engines (fresh []))
   \<and> SpeechGetString (ENGINE + 0) \<in> set (issued_by_get_engines two_engines (fresh []))
   \<and> SpeechGetValue (ENGINE_AVAILABLE + 0) \<in> set (issued_by_get_engines two_engines (fresh []))
   \<and> ENGINE + 0 \<noteq> ENGINE_AVAILABLE + 0"
proof -
  have stop: "falsy (name_read two_engines (fresh []) 2)"
    by (simp add: name_read_two_engines falsy_def)
  have go: "\<forall>k<2. \<not> falsy (name_read two_engines (fresh []) k)"
  proof (intro allI impI)
    fix k :: nat
    assume "k < 2"
    then have "k = 0 \<or> k = Suc 0" by arith
    then show "\<not> falsy (name_read two_engines (fresh []) k)"
      by (auto simp: falsy_def name_read_two_engines name_read_two_engines_Suc)
  qed
  have two: "[0..<2] = [0, Suc 0]"
    by (simp add: numeral_2_eq_2)
  have "issued_by_get_engines two_engines (fresh []) =
      [SpeechGetString ENGINE, SpeechGetValue ENGINE_AVAILABLE,
       SpeechGetString (ENGINE + 1), SpeechGetValue (ENGINE_AVAILABLE + 1),
       SpeechGetString (ENGINE + 2)]"
    by (simp add: issued_by_get_engines_run [OF stop go] two reads_at_def)
  then show ?thesis
    by (simp add: ENGINE_def ENGINE_AVAILABLE_def)
qed

text \<open>
  C9, amended.  The twenty-two plain attribute identifiers are bound, in the order of
  the assignment, to 0, 1, ..., 21, so they occupy exactly that range, \<^verbatim>\<open>VOLUME\<close> at 0
  and \<^verbatim>\<open>WAIT_SUPPORTED\<close> at 21.  The selector bases are the constants \<open>0x10000\<close>,
  \<open>0x20000\<close>, \<open>0x30000\<close>, \<open>0x40000\<close> (\<^verbatim>\<open>ENGINE\<close>) and \<open>0x50000\<close>
  (\<^verbatim>\<open>ENGINE_AVAILABLE\<close>), all above that range.  In an enumeration of \<open>n\<close> engines,
  the name of the i-th engine is read with \<^verbatim>\<open>get_string\<close> at \<^verbatim>\<open>ENGINE + i\<close> and its
  availability with \<^verbatim>\<open>get_value\<close> at \<^verbatim>\<open>ENGINE_AVAILABLE + i\<close>, the same \<open>i\<close> in both
  calls, which is also the id of its entry; the last call reads the name at
  \<^verbatim>\<open>ENGINE + n\<close>.
\<close>

theorem identifier_arithmetic:
  "map snd plain_binding = plain_attributes
   \<and> map fst plain_binding = plain_identifiers
   \<and> plain_attributes = [0..21]
   \<and> set plain_attributes = {0..21}
   \<and> VOLUME = 0 \<and> WAIT_SUPPORTED = 21
   \<and> selector_bases = [0x10000, 0x20000, 0x30000, 0x40000, 0x50000]
   \<and> ENGINE = 0x40000 \<and> ENGINE_AVAILABLE = 0x50000
   \<and> set selector_bases \<inter> set plain_attributes = {}
   \<and> (falsy (name_read lib w n) \<and> (\<forall>k<n. \<not> falsy (name_read lib w k)) \<longrightarrow>
        issued_by_get_engines lib w =
          concat (map (\<lambda>i. [SpeechGetString (ENGINE + int i),
                             SpeechGetValue (ENGINE_AVAILABLE + int i)]) [0..<n])
            @ [SpeechGetString (ENGINE + int n)]
        \<and> map_option (map Id' \<circ> fst) (get_engines lib w) = Some (map int [0..<n]))"
proof -
  have range: "plain_attributes = [0..21]"
    by (simp add: plain_attributes_def VOLUME_def VOLUME_MAX_def VOLUME_MIN_def
        VOLUME_SUPPORTED_def RATE_def RATE_MAX_def RATE_MIN_def RATE_SUPPORTED_def
        PITCH_def PITCH_MAX_def PITCH_MIN_def PITCH_SUPPORTED_def INFLEXION_def
        INFLEXION_MAX_def INFLEXION_MIN_def INFLEXION_SUPPORTED_def PAUSED_def
        PAUSE_SUPPORTED_def BUSY_def BUSY_SUPPORTED_def WAIT_def WAIT_SUPPORTED_def
        upto_rec1)
  have len: "length plain_identifiers = length range_0_22"
    by (simp add: plain_identifiers_def range_0_22_def)
  have vals: "map snd plain_binding = plain_attributes"
    unfolding plain_binding_def using len by (simp add: range range_0_22_def)
  have names: "map fst plain_binding = plain_identifiers"
    unfolding plain_binding_def using len by simp
  have bases: "selector_bases = [0x10000, 0x20000, 0x30000, 0x40000, 0x50000]"
    by (simp add: selector_bases_def VOICE_def LANGUAGE_def SUBENGINE_def ENGINE_def
        ENGINE_AVAILABLE_def)
  have apart: "set selector_bases \<inter> set plain_attributes = {}"
    unfolding bases range by auto
  have enum: "issued_by_get_engines lib w =
          concat (map (\<lambda>i. [SpeechGetString (ENGINE + int i),
                             SpeechGetValue (ENGINE_AVAILABLE + int i)]) [0..<n])
            @ [SpeechGetString (ENGINE + int n)]
        \<and> map_option (map Id' \<circ> fst) (get_engines lib w) = Some (map int [0..<n])"
    if "falsy (name_read lib w n)" and "\<forall>k<n. \<not> falsy (name_read lib w k)"
  proof -
    have reads: "reads_at = (\<lambda>i. [SpeechGetString (ENGINE + int i),
                             SpeechGetValue (ENGINE_AVAILABLE + int i)])"
      by (rule ext) (simp add: reads_at_def)
    show ?thesis
      using issued_by_get_engines_run [OF that] get_engines_run [OF that]
      by (simp add: reads descriptor_def)
  qed
  have setr: "set plain_attributes = {0..21}"
    unfolding range by (rule set_upto)
  have ends: "VOLUME = 0" "WAIT_SUPPORTED = 21" "ENGINE = 0x40000" "ENGINE_AVAILABLE = 0x50000"
    by (simp_all add: VOLUME_def WAIT_SUPPORTED_def ENGINE_def ENGINE_AVAILABLE_def)
  from vals names range setr ends bases apart enum show ?thesis
    by blast
qed

theorem identifier_arithmetic_witness:
  "falsy (name_read two_engines (fresh []) 2)
   \<and> \<not> falsy (name_read two_engines (fresh []) 0)
   \<and> \<not> falsy (name_read two_engines (fresh []) 1)
   \<and> issued_by_get_engines two_engines (fresh []) =
       [SpeechGetString (ENGINE + 0), SpeechGetValue (ENGINE_AVAILABLE + 0),
        SpeechGetString (ENGINE + 1), SpeechGetValue (ENGINE_AVAILABLE + 1),
        SpeechGetString (ENGINE + 2)]
   \<and> map_option (map Id' \<circ> fst) (get_engines two_engines (fresh [])) = Some [0, 1]"
proof -
  have f2: "falsy (name_read two_engines (fresh []) 2)"
    and f1: "\<not> falsy (name_read two_engines (fresh []) 1)"
    and f0: "\<not> falsy (name_read two_engines (fresh []) 0)"
    by (simp_all add: name_read_two_engines name_read_two_engines_Suc falsy_def)
  have go: "\<forall>k<2. \<not> falsy (name_read two_engines (fresh []) k)"
  proof (intro allI impI)
    fix k :: nat
    assume "k < 2"
    then have "k = 0 \<or> k = 1" by arith
    with f0 f1 show "\<not> falsy (name_read two_engines (fresh []) k)" by blast
  qed
  have two: "[0..<2] = [0, Suc 0]"
    by (simp add: numeral_2_eq_2)
  note arith = identifier_arithmetic [of two_engines "fresh []" 2]
  from arith f2 go have "issued_by_get_engines two_engines (fresh []) =
          concat (map (\<lambda>i. [SpeechGetString (ENGINE + int i),
                             SpeechGetValue (ENGINE_AVAILABLE + int i)]) [0..<2])
            @ [SpeechGetString (ENGINE + int 2)]
        \<and> map_option (map Id' \<circ> fst) (get_engines two_engines (fresh [])) =
            Some (map int [0..<2])"
    by blast
  then show ?thesis using f0 f1 f2 by (simp add: two)
qed

end
